theory Spec2Isabelle
  imports Complex_Main
begin

section \<open>The gateway manager of the validator\<close>

text \<open>
  A shallow embedding of \<^verbatim>\<open>neurons/validator/gateway/gateway_manager.py\<close>.
  The class \<^verbatim>\<open>GatewayManager\<close> owns a list of gateways and talks to two
  collaborators held in its fields: a scorer and a transport client. Each method
  becomes a function from the manager to a \<open>run\<close>: what the call returned or raised,
  the manager it leaves behind and the collaborator calls it made, in order.

  The gateways of a list are taken as separate objects, so a list of records stands
  for the list of objects and an assignment to a field of one gateway is an update
  of one position. The collaborators are functions of their arguments, and the
  scorer always returns. One call runs
  at a time; the \<^verbatim>\<open>await\<close> points are not modelled. The calls to \<^verbatim>\<open>bt.logging\<close>
  change nothing in the manager and are left out.
\<close>

subsection \<open>Data\<close>

text \<open>
  \<^verbatim>\<open>Gateway\<close>: the manager reads \<open>url\<close> and \<open>score\<close> and writes \<open>disabled\<close>;
  no other field of the class is touched by this file. The score is a Python number
  that is only compared; it is taken as a real, which leaves NaN out.
\<close>

record gateway =
  url :: string
  score :: real
  disabled :: bool

type_synonym keypair = string

text \<open>\<^verbatim>\<open>GatewayTask(id, prompt, gateway_host)\<close>, the task reference on the wire.\<close>

record gateway_task =
  gt_id :: string
  gt_prompt :: string
  gt_gateway_host :: string

text \<open>\<^verbatim>\<open>GatewayOrganicTask\<close>: \<^verbatim>\<open>add_result\<close> reads its \<^verbatim>\<open>id\<close>, \<^verbatim>\<open>prompt\<close>
  and \<^verbatim>\<open>gateway_url\<close>.\<close>

record gateway_organic_task =
  ot_id :: string
  ot_prompt :: string
  ot_gateway_url :: string

text \<open>The optional keyword arguments of \<^verbatim>\<open>add_result\<close>, \<open>None\<close> when left out.\<close>

record result_fields =
  rf_score :: "real option"
  rf_miner_hotkey :: "string option"
  rf_miner_uid :: "int option"
  rf_miner_rating :: "real option"
  rf_asset :: "string option"
  rf_error :: "string option"

text \<open>
  What is raised. \<^verbatim>\<open>except Http3Exception\<close> catches that class (the payload is its
  message); every other class is an \<open>OtherException\<close>, named by the payload.
  \<open>ValueError\<close> is \<^verbatim>\<open>max\<close> of an empty sequence, \<open>IndexError\<close> is
  \<^verbatim>\<open>random.choice\<close> of one.
\<close>

datatype exception =
  Http3Exception string
| ValueError
| IndexError
| OtherException string

fun is_Http3 :: "exception \<Rightarrow> bool" where
  "is_Http3 (Http3Exception _) = True"
| "is_Http3 _ = False"

text \<open>The value of \<^verbatim>\<open>GatewayApi.get_tasks\<close>: \<^verbatim>\<open>result.tasks\<close> and \<^verbatim>\<open>result.gateways\<close>.\<close>

record get_tasks_result =
  tasks :: "gateway_task list"
  r_gateways :: "gateway list"

text \<open>
  The transport client, \<^verbatim>\<open>GatewayApi\<close>: its two methods as functions of their
  arguments, \<open>Inl\<close> when the call raises.
\<close>

record gateway_api_t =
  api_get_tasks :: "string \<Rightarrow> keypair \<Rightarrow> int \<Rightarrow> exception + get_tasks_result"
  api_add_result :: "keypair \<Rightarrow> gateway_task \<Rightarrow> result_fields \<Rightarrow> exception + unit"

text \<open>
  The fields of \<^verbatim>\<open>GatewayManager\<close>. \<open>gateway_scorer\<close> stands for
  \<^verbatim>\<open>self._gateway_scorer.score\<close>, a function from the list it is given to the list
  it returns.
\<close>

record manager =
  gateways :: "gateway list"
  gateway_scorer :: "gateway list \<Rightarrow> gateway list"
  gateway_api :: gateway_api_t
  gateway_info_server :: string

text \<open>The collaborator calls a method makes.\<close>

datatype call =
  ApiGetTasks string keypair int
| ApiAddResult keypair gateway_task result_fields
| ScorerScore "gateway list"

fun is_ScorerScore :: "call \<Rightarrow> bool" where
  "is_ScorerScore (ScorerScore _) = True"
| "is_ScorerScore _ = False"

fun is_ApiAddResult :: "call \<Rightarrow> bool" where
  "is_ApiAddResult (ApiAddResult _ _ _) = True"
| "is_ApiAddResult _ = False"

record 'a run =
  outcome :: "exception + 'a"
  final :: manager
  calls :: "call list"

subsection \<open>\<^verbatim>\<open>__init__\<close>\<close>

definition init :: "(gateway list \<Rightarrow> gateway list) \<Rightarrow> gateway_api_t \<Rightarrow> string \<Rightarrow> manager" where
  "init scorer api info_server =
     \<lparr>gateways = [], gateway_scorer = scorer, gateway_api = api,
      gateway_info_server = info_server\<rparr>"

subsection \<open>\<^verbatim>\<open>get_best_gateway\<close>\<close>

text \<open>
  \<^verbatim>\<open>max(xs, key=lambda x: x.score)\<close>: a left-to-right scan that replaces the
  candidate only by a strictly greater key, so the first maximum wins; it raises
  \<open>ValueError\<close> on an empty list.
\<close>

fun max_scan :: "gateway \<Rightarrow> gateway list \<Rightarrow> gateway" where
  "max_scan best [] = best"
| "max_scan best (g # gs) = max_scan (if score best < score g then g else best) gs"

fun max_by_score :: "gateway list \<Rightarrow> exception + gateway" where
  "max_by_score [] = Inl ValueError"
| "max_by_score (g # gs) = Inr (max_scan g gs)"

text \<open>
  \<^verbatim>\<open>random.choice(xs)\<close> is \<^verbatim>\<open>xs[randbelow(len(xs))]\<close> and raises \<open>IndexError\<close>
  on an empty list. The random source is the parameter \<open>randbelow\<close>; the library
  draws \<open>randbelow n\<close> from \<open>0 .. n - 1\<close>, and an index outside the list would
  raise \<open>IndexError\<close> too.
\<close>

definition choice :: "(nat \<Rightarrow> nat) \<Rightarrow> 'a list \<Rightarrow> exception + 'a" where
  "choice randbelow xs =
     (if xs = [] then Inl IndexError
      else let i = randbelow (length xs)
           in if i < length xs then Inr (xs ! i) else Inl IndexError)"

text \<open>
  \<open>min_score\<close> is \<^verbatim>\<open>GatewayScorer.GATEWAY_MIN_SCORE\<close>, a constant of a class
  defined elsewhere.
\<close>

definition get_best_gateway ::
  "real \<Rightarrow> (nat \<Rightarrow> nat) \<Rightarrow> manager \<Rightarrow> gateway option run" where
  "get_best_gateway min_score randbelow st =
     (if gateways st = [] then \<lparr>outcome = Inr None, final = st, calls = []\<rparr>
      else case max_by_score (gateways st) of
        Inl e \<Rightarrow> \<lparr>outcome = Inl e, final = st, calls = []\<rparr>
      | Inr g \<Rightarrow>
          if score g = min_score
          then (case choice randbelow (gateways st) of
                  Inl e \<Rightarrow> \<lparr>outcome = Inl e, final = st, calls = []\<rparr>
                | Inr c \<Rightarrow> \<lparr>outcome = Inr (Some c), final = st, calls = []\<rparr>)
          else \<lparr>outcome = Inr (Some g), final = st, calls = []\<rparr>)"

subsection \<open>\<^verbatim>\<open>_update_gateways\<close>\<close>

text \<open>The scorer is called on the list and its value becomes the manager's list.\<close>

definition update_gateways :: "manager \<Rightarrow> gateway list \<Rightarrow> unit run" where
  "update_gateways st gs =
     \<lparr>outcome = Inr (), final = st\<lparr>gateways := gateway_scorer st gs\<rparr>,
      calls = [ScorerScore gs]\<rparr>"

subsection \<open>\<^verbatim>\<open>get_tasks\<close>\<close>

text \<open>The first loop: \<^verbatim>\<open>for gateway in self._gateways: gateway.disabled = False\<close>.\<close>

definition reset_disabled :: "gateway list \<Rightarrow> gateway list" where
  "reset_disabled gs = map (\<lambda>g. g\<lparr>disabled := False\<rparr>) gs"

text \<open>
  The second loop: the first gateway whose url is the target gets
  \<open>disabled = True\<close>, and the loop breaks there.
\<close>

fun disable_first :: "string \<Rightarrow> gateway list \<Rightarrow> gateway list" where
  "disable_first u [] = []"
| "disable_first u (g # gs) =
     (if url g = u then g\<lparr>disabled := True\<rparr> # gs else g # disable_first u gs)"

text \<open>
  The \<^verbatim>\<open>try\<close> statement: the reset, the transport call, and on success the two
  assignments. An \<open>Http3Exception\<close> is caught and leaves \<open>tasks\<close> at its initial
  \<open>[]\<close>; any other exception leaves the method.
\<close>

definition fetch :: "manager \<Rightarrow> string \<Rightarrow> keypair \<Rightarrow> int \<Rightarrow> gateway_task list run" where
  "fetch st u validator_hotkey task_count =
     (let st1 = st\<lparr>gateways := reset_disabled (gateways st)\<rparr>;
          cs = [ApiGetTasks u validator_hotkey task_count]
      in case api_get_tasks (gateway_api st1) u validator_hotkey task_count of
           Inr result \<Rightarrow>
             \<lparr>outcome = Inr (tasks result),
              final = st1\<lparr>gateways := r_gateways result\<rparr>, calls = cs\<rparr>
         | Inl e \<Rightarrow>
             if is_Http3 e then \<lparr>outcome = Inr [], final = st1, calls = cs\<rparr>
             else \<lparr>outcome = Inl e, final = st1, calls = cs\<rparr>)"

definition get_tasks :: "manager \<Rightarrow> string \<Rightarrow> keypair \<Rightarrow> int \<Rightarrow> gateway_task list run" where
  "get_tasks st u validator_hotkey task_count =
     (let f = fetch st u validator_hotkey task_count
      in case outcome f of
           Inl e \<Rightarrow> f
         | Inr ts \<Rightarrow>
             let st2 = (if ts = []
                        then (final f)\<lparr>gateways := disable_first u (gateways (final f))\<rparr>
                        else final f);
                 up = update_gateways st2 (gateways st2)
             in \<lparr>outcome = Inr ts, final = final up, calls = calls f @ calls up\<rparr>)"

subsection \<open>\<^verbatim>\<open>add_result\<close>\<close>

definition add_result ::
  "manager \<Rightarrow> keypair \<Rightarrow> gateway_organic_task \<Rightarrow> result_fields \<Rightarrow> unit run" where
  "add_result st validator_hotkey task kwargs =
     (let t = \<lparr>gt_id = ot_id task, gt_prompt = ot_prompt task,
               gt_gateway_host = ot_gateway_url task\<rparr>
      in \<lparr>outcome = api_add_result (gateway_api st) validator_hotkey t kwargs,
          final = st, calls = [ApiAddResult validator_hotkey t kwargs]\<rparr>)"

subsection \<open>Example collaborators\<close>

text \<open>Concrete gateways, transport clients, scorers and random draws, for the examples.\<close>

definition gw :: "string \<Rightarrow> real \<Rightarrow> bool \<Rightarrow> gateway" where
  "gw u s d = \<lparr>url = u, score = s, disabled = d\<rparr>"

definition task1 :: gateway_task where
  "task1 = \<lparr>gt_id = ''t1'', gt_prompt = ''a red chair'', gt_gateway_host = ''a''\<rparr>"

definition draw :: "nat \<Rightarrow> nat \<Rightarrow> nat" where
  "draw k n = k"

text \<open>A transport client that cannot reach the gateway.\<close>

definition down_api :: gateway_api_t where
  "down_api =
     \<lparr>api_get_tasks = (\<lambda>host hotkey n. Inl (Http3Exception ''connection refused'')),
      api_add_result = (\<lambda>hotkey t kwargs. Inl (Http3Exception ''connection refused''))\<rparr>"

text \<open>A transport client whose task fetch raises something that is not a transport error.\<close>

definition broken_api :: gateway_api_t where
  "broken_api =
     \<lparr>api_get_tasks = (\<lambda>host hotkey n. Inl (OtherException ''TimeoutError'')),
      api_add_result = (\<lambda>hotkey t kwargs. Inl (OtherException ''TimeoutError''))\<rparr>"

text \<open>A transport client that answers every task fetch with the same response.\<close>

definition static_api :: "get_tasks_result \<Rightarrow> gateway_api_t" where
  "static_api res =
     \<lparr>api_get_tasks = (\<lambda>host hotkey n. Inr res),
      api_add_result = (\<lambda>hotkey t kwargs. Inr ())\<rparr>"

text \<open>A scorer that returns new gateway objects, built with the flag left at \<open>False\<close>.\<close>

definition fresh_scorer :: "gateway list \<Rightarrow> gateway list" where
  "fresh_scorer gs = map (\<lambda>g. \<lparr>url = url g, score = score g, disabled = False\<rparr>) gs"

text \<open>A scorer that keeps the gateways it is given and adds one.\<close>

definition adding_scorer :: "gateway list \<Rightarrow> gateway list" where
  "adding_scorer gs = gs @ [gw ''z'' 0 False]"

definition manager_of ::
  "(gateway list \<Rightarrow> gateway list) \<Rightarrow> gateway_api_t \<Rightarrow> gateway list \<Rightarrow> manager" where
  "manager_of scorer api gs = (init scorer api ''info'')\<lparr>gateways := gs\<rparr>"

section \<open>Properties\<close>

subsection \<open>The scan for the maximum\<close>

lemma max_scan_mem: "max_scan b gs \<in> set (b # gs)"
  by (induction gs arbitrary: b) auto

lemma max_scan_ge: "g \<in> set (b # gs) \<Longrightarrow> score g \<le> score (max_scan b gs)"
proof (induction gs arbitrary: b g)
  case Nil
  then show ?case by simp
next
  case (Cons a gs)
  define c where "c = (if score b < score a then a else b)"
  have c: "score b \<le> score c" "score a \<le> score c" by (auto simp: c_def)
  have up: "score c \<le> score (max_scan c gs)" using Cons.IH [of c c] by simp
  have step: "max_scan b (a # gs) = max_scan c gs" by (simp add: c_def)
  from Cons.prems consider "g = b" | "g = a" | "g \<in> set gs" by auto
  then show ?case
  proof cases
    case 1 then show ?thesis unfolding step using order_trans [OF c(1) up] by simp
  next
    case 2 then show ?thesis unfolding step using order_trans [OF c(2) up] by simp
  next
    case 3 then show ?thesis unfolding step using Cons.IH [of g c] by simp
  qed
qed

lemma max_scan_score: "score (max_scan b gs) = Max (score ` set (b # gs))"
proof (rule antisym)
  show "score (max_scan b gs) \<le> Max (score ` set (b # gs))"
    using max_scan_mem [of b gs] by (intro Max_ge) auto
  show "Max (score ` set (b # gs)) \<le> score (max_scan b gs)"
    using max_scan_ge [of _ b gs] by (intro Max.boundedI) auto
qed

lemma max_scan_unique:
  assumes i: "i < length (b # gs)"
    and top: "\<And>j. j < length (b # gs) \<Longrightarrow> j \<noteq> i \<Longrightarrow> score ((b # gs) ! j) < score ((b # gs) ! i)"
  shows "max_scan b gs = (b # gs) ! i"
proof -
  obtain k where k: "k < length (b # gs)" "max_scan b gs = (b # gs) ! k"
    using max_scan_mem [of b gs] unfolding in_set_conv_nth by metis
  have "score ((b # gs) ! i) \<le> score (max_scan b gs)"
    using i by (intro max_scan_ge) (metis nth_mem)
  with k top [of k] have "k = i" by force
  with k show ?thesis by simp
qed

lemma max_scan_same_pos:
  assumes "map score gs = map score gs'" "score b = score b'"
  shows "\<exists>i < length (b # gs). max_scan b gs = (b # gs) ! i \<and> max_scan b' gs' = (b' # gs') ! i"
  using assms
proof (induction gs arbitrary: b b' gs')
  case Nil
  then show ?case by auto
next
  case (Cons a gs)
  then obtain a' gs1 where g': "gs' = a' # gs1" "score a = score a'" "map score gs = map score gs1"
    by (cases gs') auto
  let ?c = "if score b < score a then a else b"
  let ?c' = "if score b' < score a' then a' else b'"
  have "score ?c = score ?c'" using g' Cons.prems by simp
  from Cons.IH [OF g'(3) this] obtain i where i: "i < length (?c # gs)"
     "max_scan ?c gs = (?c # gs) ! i" "max_scan ?c' gs1 = (?c' # gs1) ! i" by blast
  show ?case
  proof (cases i)
    case 0
    show ?thesis
    proof (cases "score b < score a")
      case True
      with 0 i g' Cons.prems show ?thesis by (intro exI [of _ 1]) simp
    next
      case False
      with 0 i g' Cons.prems show ?thesis by (intro exI [of _ 0]) simp
    qed
  next
    case (Suc n)
    with i g' show ?thesis by (intro exI [of _ "Suc (Suc n)"]) simp
  qed
qed


lemma get_best_gateway_nonempty:
  "gateways st = b # gs \<Longrightarrow>
   get_best_gateway min_score randbelow st =
     (if score (max_scan b gs) = min_score
      then (case choice randbelow (b # gs) of
              Inl e \<Rightarrow> \<lparr>outcome = Inl e, final = st, calls = []\<rparr>
            | Inr c \<Rightarrow> \<lparr>outcome = Inr (Some c), final = st, calls = []\<rparr>)
      else \<lparr>outcome = Inr (Some (max_scan b gs)), final = st, calls = []\<rparr>)"
  by (simp add: get_best_gateway_def)

lemma best_of_unique_max:
  assumes "i < length (gateways st)"
    and "min_score < score (gateways st ! i)"
    and "\<forall>j < length (gateways st). j \<noteq> i \<longrightarrow> score (gateways st ! j) < score (gateways st ! i)"
  shows "get_best_gateway min_score randbelow st =
           \<lparr>outcome = Inr (Some (gateways st ! i)), final = st, calls = []\<rparr>"
proof -
  from assms(1) obtain b gs where gs: "gateways st = b # gs"
    by (cases "gateways st") auto
  have m: "max_scan b gs = (b # gs) ! i"
    using assms(1,3) unfolding gs by (intro max_scan_unique) auto
  with assms(2) have "score (max_scan b gs) \<noteq> min_score"
    unfolding gs by simp
  with m show ?thesis
    by (simp add: get_best_gateway_nonempty [OF gs] gs)
qed

lemma reset_disabled_scores:
  assumes "reset_disabled gs = reset_disabled gs'"
  shows "map score gs = map score gs'"
proof -
  from assms have "map score (reset_disabled gs) = map score (reset_disabled gs')"
    by simp
  then show ?thesis
    by (simp add: reset_disabled_def comp_def)
qed

subsection \<open>The two loops of \<^verbatim>\<open>get_tasks\<close>\<close>

lemma reset_disabled_clear: "g \<in> set (reset_disabled gs) \<Longrightarrow> \<not> disabled g"
  by (auto simp: reset_disabled_def)

lemma reset_disabled_url: "map url (reset_disabled gs) = map url gs"
  by (simp add: reset_disabled_def comp_def)

lemma reset_disabled_score: "map score (reset_disabled gs) = map score gs"
  by (simp add: reset_disabled_def comp_def)

lemma reset_disabled_idem: "reset_disabled (reset_disabled gs) = reset_disabled gs"
  by (simp add: reset_disabled_def comp_def)

lemma disable_first_length: "length (disable_first u gs) = length gs"
  by (induction gs) auto

lemma disable_first_url: "map url (disable_first u gs) = map url gs"
  by (induction gs) auto

lemma disable_first_score: "map score (disable_first u gs) = map score gs"
  by (induction gs) auto

lemma disable_first_absent: "u \<notin> url ` set gs \<Longrightarrow> disable_first u gs = gs"
  by (induction gs) auto

lemma disable_first_target:
  "distinct (map url gs) \<Longrightarrow> g \<in> set (disable_first u gs) \<Longrightarrow> url g = u \<Longrightarrow> disabled g"
proof (induction gs)
  case Nil
  then show ?case by simp
next
  case (Cons a gs)
  show ?case
  proof (cases "url a = u")
    case True
    with Cons.prems show ?thesis by (auto simp: image_iff)
  next
    case False
    with Cons show ?thesis by auto
  qed
qed

lemma disable_first_others:
  "i < length gs \<Longrightarrow> url (gs ! i) \<noteq> u \<Longrightarrow> disable_first u gs ! i = gs ! i"
proof (induction gs arbitrary: i)
  case Nil
  then show ?case by simp
next
  case (Cons a gs)
  then show ?case by (cases i) auto
qed

lemma disable_first_at:
  "i < length gs \<Longrightarrow> url (gs ! i) = u \<Longrightarrow> \<forall>j < i. url (gs ! j) \<noteq> u \<Longrightarrow>
   disable_first u gs ! i = (gs ! i)\<lparr>disabled := True\<rparr>
   \<and> (\<forall>k < length gs. k \<noteq> i \<longrightarrow> disable_first u gs ! k = gs ! k)"
proof (induction gs arbitrary: i)
  case Nil
  then show ?case by simp
next
  case (Cons a gs)
  show ?case
  proof (cases i)
    case 0
    with Cons.prems show ?thesis by (auto simp: nth_Cons split: nat.splits)
  next
    case (Suc m)
    with Cons.prems have a: "url a \<noteq> u" by auto
    have m: "m < length gs" "url (gs ! m) = u" "\<forall>j < m. url (gs ! j) \<noteq> u"
      using Cons.prems Suc by auto
    from Cons.IH [OF m] a Suc show ?thesis
      by (auto simp: nth_Cons split: nat.splits)
  qed
qed

lemma find_disable_first:
  "find (\<lambda>x. url x = u) (disable_first u gs)
     = map_option (\<lambda>g. g\<lparr>disabled := True\<rparr>) (find (\<lambda>x. url x = u) gs)"
  by (induction gs) auto

subsection \<open>The branches of \<^verbatim>\<open>get_tasks\<close>\<close>

lemma fetch_ok:
  "api_get_tasks (gateway_api st) u hk n = Inr res \<Longrightarrow>
   fetch st u hk n =
     \<lparr>outcome = Inr (tasks res), final = st\<lparr>gateways := r_gateways res\<rparr>,
      calls = [ApiGetTasks u hk n]\<rparr>"
  by (simp add: fetch_def)

lemma fetch_http3:
  "api_get_tasks (gateway_api st) u hk n = Inl e \<Longrightarrow> is_Http3 e \<Longrightarrow>
   fetch st u hk n =
     \<lparr>outcome = Inr [], final = st\<lparr>gateways := reset_disabled (gateways st)\<rparr>,
      calls = [ApiGetTasks u hk n]\<rparr>"
  by (simp add: fetch_def)

lemma fetch_other:
  "api_get_tasks (gateway_api st) u hk n = Inl e \<Longrightarrow> \<not> is_Http3 e \<Longrightarrow>
   fetch st u hk n =
     \<lparr>outcome = Inl e, final = st\<lparr>gateways := reset_disabled (gateways st)\<rparr>,
      calls = [ApiGetTasks u hk n]\<rparr>"
  by (simp add: fetch_def)

lemma fetch_scorer: "gateway_scorer (final (fetch st u hk n)) = gateway_scorer st"
  by (simp add: fetch_def Let_def split: sum.splits)

lemma fetch_final: "final (fetch st u hk n) = st\<lparr>gateways := gateways (final (fetch st u hk n))\<rparr>"
  by (simp add: fetch_def Let_def split: sum.splits)

lemma get_tasks_raised:
  "outcome (fetch st u hk n) = Inl e \<Longrightarrow> get_tasks st u hk n = fetch st u hk n"
  by (simp add: get_tasks_def Let_def)

lemma get_tasks_empty:
  assumes "outcome (fetch st u hk n) = Inr []"
  shows "get_tasks st u hk n =
     \<lparr>outcome = Inr [],
      final = st\<lparr>gateways := gateway_scorer st (disable_first u (gateways (final (fetch st u hk n))))\<rparr>,
      calls = calls (fetch st u hk n)
                @ [ScorerScore (disable_first u (gateways (final (fetch st u hk n))))]\<rparr>"
proof -
  obtain gs where f: "final (fetch st u hk n) = st\<lparr>gateways := gs\<rparr>"
    using fetch_final by blast
  show ?thesis
    using assms by (simp add: get_tasks_def Let_def update_gateways_def f)
qed

lemma get_tasks_some:
  assumes "outcome (fetch st u hk n) = Inr ts" and "ts \<noteq> []"
  shows "get_tasks st u hk n =
     \<lparr>outcome = Inr ts,
      final = st\<lparr>gateways := gateway_scorer st (gateways (final (fetch st u hk n)))\<rparr>,
      calls = calls (fetch st u hk n) @ [ScorerScore (gateways (final (fetch st u hk n)))]\<rparr>"
proof -
  obtain gs where f: "final (fetch st u hk n) = st\<lparr>gateways := gs\<rparr>"
    using fetch_final by blast
  show ?thesis
    using assms by (simp add: get_tasks_def Let_def update_gateways_def f)
qed

lemma fetch_calls: "calls (fetch st u hk n) = [ApiGetTasks u hk n]"
  by (simp add: fetch_def Let_def split: sum.splits)

lemma fetch_reset:
  "fetch (st\<lparr>gateways := reset_disabled (gateways st)\<rparr>) u hk n = fetch st u hk n"
  by (simp add: fetch_def Let_def reset_disabled_idem)

subsection \<open>Selection\<close>

text \<open>
  C5. On an empty gateway list \<^verbatim>\<open>get_best_gateway\<close> returns \<open>None\<close>: the outcome is
  a returned value, not a raised exception, whatever the minimal score and the
  random source are; the manager is left as it was and no collaborator is called.
  A manager fresh from \<^verbatim>\<open>__init__\<close> is such a case.
\<close>

theorem get_best_gateway_empty:
  "get_best_gateway min_score randbelow (st\<lparr>gateways := []\<rparr>) =
     \<lparr>outcome = Inr None, final = st\<lparr>gateways := []\<rparr>, calls = []\<rparr>
   \<and> outcome (get_best_gateway min_score randbelow (init scorer api info_server)) = Inr None"
  by (simp add: get_best_gateway_def init_def)

text \<open>
  C6. When the gateway at position \<open>i\<close> has a score above the minimal score and
  strictly above the score of every other position, \<^verbatim>\<open>get_best_gateway\<close> returns it,
  leaves the manager unchanged and calls no collaborator. (That no other gateway is
  above the minimal score is not needed.)
\<close>

theorem get_best_gateway_unique_max:
  assumes "i < length (gateways st)"
    and "min_score < score (gateways st ! i)"
    and "\<forall>j < length (gateways st). j \<noteq> i \<longrightarrow> score (gateways st ! j) < score (gateways st ! i)"
  shows "outcome (get_best_gateway min_score randbelow st) = Inr (Some (gateways st ! i))
       \<and> final (get_best_gateway min_score randbelow st) = st
       \<and> calls (get_best_gateway min_score randbelow st) = []"
  by (simp add: best_of_unique_max [OF assms])

theorem get_best_gateway_unique_max_witness:
  "(1::nat) < length (gateways (manager_of id down_api [gw ''b'' 1 False, gw ''a'' 5 False]))
   \<and> (0::real) < score (gateways (manager_of id down_api [gw ''b'' 1 False, gw ''a'' 5 False]) ! 1)
   \<and> outcome (get_best_gateway 0 (draw 0)
        (manager_of id down_api [gw ''b'' 1 False, gw ''a'' 5 False]))
       = Inr (Some (gw ''a'' 5 False))"
  using get_best_gateway_unique_max
    [of 1 "manager_of id down_api [gw ''b'' 1 False, gw ''a'' 5 False]" 0 "draw 0"]
  by (simp add: manager_of_def init_def gw_def All_less_Suc)

text \<open>
  C7. When the list is not empty and its maximal score is the minimal score,
  \<^verbatim>\<open>get_best_gateway\<close> returns the gateway at the index drawn by the random source
  over the whole list, not the winner of the scan for the maximum. The index is in
  range, as the library's draw is. That each index is drawn with the same probability
  is a property of the random source.
\<close>

theorem get_best_gateway_all_min:
  assumes "gateways st \<noteq> []"
    and "Max (score ` set (gateways st)) = min_score"
    and "randbelow (length (gateways st)) < length (gateways st)"
  shows "outcome (get_best_gateway min_score randbelow st)
           = Inr (Some (gateways st ! randbelow (length (gateways st))))
       \<and> final (get_best_gateway min_score randbelow st) = st"
proof -
  from assms(1) obtain b gs where gs: "gateways st = b # gs"
    by (cases "gateways st") auto
  have "score (max_scan b gs) = min_score"
    using assms(2) unfolding gs max_scan_score .
  then show ?thesis
    using assms(3) unfolding gs
    by (simp add: get_best_gateway_nonempty [OF gs] choice_def Let_def)
qed

theorem get_best_gateway_all_min_witness:
  "gateways (manager_of id down_api [gw ''a'' 0 False, gw ''b'' 0 False, gw ''c'' 0 False]) \<noteq> []
   \<and> Max (score ` set (gateways
         (manager_of id down_api [gw ''a'' 0 False, gw ''b'' 0 False, gw ''c'' 0 False]))) = 0
   \<and> outcome (get_best_gateway 0 (draw 2)
        (manager_of id down_api [gw ''a'' 0 False, gw ''b'' 0 False, gw ''c'' 0 False]))
       = Inr (Some (gw ''c'' 0 False))"
  using get_best_gateway_all_min
    [of "manager_of id down_api [gw ''a'' 0 False, gw ''b'' 0 False, gw ''c'' 0 False]" 0 "draw 2"]
  by (simp add: manager_of_def init_def gw_def draw_def)

text \<open>
  C9. Two managers whose gateway lists agree once every \<open>disabled\<close> flag is cleared
  get the same answer from \<^verbatim>\<open>get_best_gateway\<close> under the same random source: both
  \<open>None\<close>, or both the gateway at one and the same position, or (only if the draw were
  out of range) both the same error. In particular a position that holds the unique
  maximal score above the minimal score in one list is returned from the other,
  whatever its flag is there.
\<close>

theorem get_best_gateway_ignores_disabled:
  assumes "reset_disabled (gateways st) = reset_disabled (gateways st')"
  shows "((outcome (get_best_gateway min_score randbelow st) = Inr None
           \<and> outcome (get_best_gateway min_score randbelow st') = Inr None)
        \<or> (outcome (get_best_gateway min_score randbelow st) = Inl IndexError
           \<and> outcome (get_best_gateway min_score randbelow st') = Inl IndexError)
        \<or> (\<exists>i < length (gateways st).
             outcome (get_best_gateway min_score randbelow st) = Inr (Some (gateways st ! i))
           \<and> outcome (get_best_gateway min_score randbelow st') = Inr (Some (gateways st' ! i))))
       \<and> (\<forall>i < length (gateways st).
             min_score < score (gateways st ! i)
           \<and> (\<forall>j < length (gateways st). j \<noteq> i \<longrightarrow>
                  score (gateways st ! j) < score (gateways st ! i))
           \<longrightarrow> outcome (get_best_gateway min_score randbelow st')
                 = Inr (Some (gateways st' ! i)))"
proof
  have sc: "map score (gateways st) = map score (gateways st')"
    using assms by (rule reset_disabled_scores)
  show "(outcome (get_best_gateway min_score randbelow st) = Inr None
           \<and> outcome (get_best_gateway min_score randbelow st') = Inr None)
        \<or> (outcome (get_best_gateway min_score randbelow st) = Inl IndexError
           \<and> outcome (get_best_gateway min_score randbelow st') = Inl IndexError)
        \<or> (\<exists>i < length (gateways st).
             outcome (get_best_gateway min_score randbelow st) = Inr (Some (gateways st ! i))
           \<and> outcome (get_best_gateway min_score randbelow st') = Inr (Some (gateways st' ! i)))"
  proof (cases "gateways st")
    case Nil
    with sc have "gateways st' = []" by simp
    with Nil show ?thesis by (simp add: get_best_gateway_def)
  next
    case (Cons b gs)
    from sc obtain b' gs' where Cons': "gateways st' = b' # gs'"
      and eq: "score b = score b'" "map score gs = map score gs'"
      unfolding Cons by (cases "gateways st'") auto
    have len: "length gs' = length gs"
      using eq(2) by (metis length_map)
    from max_scan_same_pos [OF eq(2) eq(1)] obtain i where i: "i < length (b # gs)"
      "max_scan b gs = (b # gs) ! i" "max_scan b' gs' = (b' # gs') ! i"
      by blast
    have same: "score (max_scan b gs) = score (max_scan b' gs')"
      using sc unfolding max_scan_score Cons Cons' by (metis list.set_map)
    show ?thesis
    proof (cases "score (max_scan b gs) = min_score")
      case False
      with same i show ?thesis
        unfolding get_best_gateway_nonempty [OF Cons] get_best_gateway_nonempty [OF Cons']
          Cons Cons'
        by auto
    next
      case True
      show ?thesis
      proof (cases "randbelow (Suc (length gs)) < Suc (length gs)")
        case False
        with True same len show ?thesis
          unfolding get_best_gateway_nonempty [OF Cons] get_best_gateway_nonempty [OF Cons']
            Cons Cons'
          by (simp add: choice_def)
      next
        case r: True
        with True same len show ?thesis
          unfolding get_best_gateway_nonempty [OF Cons] get_best_gateway_nonempty [OF Cons']
            Cons Cons'
          by (auto simp: choice_def Let_def)
      qed
    qed
  qed
  show "\<forall>i < length (gateways st).
          min_score < score (gateways st ! i)
        \<and> (\<forall>j < length (gateways st). j \<noteq> i \<longrightarrow>
               score (gateways st ! j) < score (gateways st ! i))
        \<longrightarrow> outcome (get_best_gateway min_score randbelow st')
              = Inr (Some (gateways st' ! i))"
  proof (intro allI impI)
    fix i
    assume i: "i < length (gateways st)"
      and top: "min_score < score (gateways st ! i)
        \<and> (\<forall>j < length (gateways st). j \<noteq> i \<longrightarrow>
               score (gateways st ! j) < score (gateways st ! i))"
    have len: "length (gateways st') = length (gateways st)"
      using sc by (metis length_map)
    have nth: "score (gateways st' ! j) = score (gateways st ! j)" if "j < length (gateways st)" for j
      using that len sc by (metis nth_map)
    have "get_best_gateway min_score randbelow st' =
            \<lparr>outcome = Inr (Some (gateways st' ! i)), final = st', calls = []\<rparr>"
      using i top by (intro best_of_unique_max) (simp_all add: len nth)
    then show "outcome (get_best_gateway min_score randbelow st') = Inr (Some (gateways st' ! i))"
      by simp
  qed
qed

theorem get_best_gateway_ignores_disabled_witness:
  "reset_disabled (gateways (manager_of id down_api [gw ''a'' 5 False, gw ''b'' 1 False]))
     = reset_disabled (gateways (manager_of id down_api [gw ''a'' 5 True, gw ''b'' 1 False]))
   \<and> outcome (get_best_gateway 0 (draw 1)
        (manager_of id down_api [gw ''a'' 5 True, gw ''b'' 1 False]))
       = Inr (Some (gw ''a'' 5 True))"
  using get_best_gateway_ignores_disabled
    [of "manager_of id down_api [gw ''a'' 5 False, gw ''b'' 1 False]"
        "manager_of id down_api [gw ''a'' 5 True, gw ''b'' 1 False]" 0 "draw 1"]
  by (simp add: manager_of_def init_def gw_def reset_disabled_def All_less_Suc)

subsection \<open>Fetching tasks\<close>

text \<open>
  C3. When the transport client's task fetch raises an \<open>Http3Exception\<close>,
  \<^verbatim>\<open>get_tasks\<close> returns the empty task list instead of raising. The \<^verbatim>\<open>try\<close>
  statement leaves the manager with the list it had when the transport call was
  made (the list with the flags cleared) and every other field as it was; after it
  only the disabling loop and the scorer act on the list, and the list handed to the
  scorer has the urls and scores the manager started with.
\<close>

theorem get_tasks_absorbs_transport_error:
  assumes "api_get_tasks (gateway_api st) u hk n = Inl (Http3Exception msg)"
  shows "outcome (get_tasks st u hk n) = Inr []
       \<and> final (fetch st u hk n) = st\<lparr>gateways := reset_disabled (gateways st)\<rparr>
       \<and> calls (get_tasks st u hk n)
           = [ApiGetTasks u hk n, ScorerScore (disable_first u (reset_disabled (gateways st)))]
       \<and> final (get_tasks st u hk n)
           = st\<lparr>gateways := gateway_scorer st (disable_first u (reset_disabled (gateways st)))\<rparr>
       \<and> map url (disable_first u (reset_disabled (gateways st))) = map url (gateways st)
       \<and> map score (disable_first u (reset_disabled (gateways st))) = map score (gateways st)"
proof -
  have f: "fetch st u hk n =
     \<lparr>outcome = Inr [], final = st\<lparr>gateways := reset_disabled (gateways st)\<rparr>,
      calls = [ApiGetTasks u hk n]\<rparr>"
    by (rule fetch_http3 [OF assms]) simp
  then have "outcome (fetch st u hk n) = Inr []" by simp
  from get_tasks_empty [OF this] show ?thesis
    by (simp add: f disable_first_url disable_first_score reset_disabled_url reset_disabled_score)
qed

theorem get_tasks_absorbs_transport_error_witness:
  "api_get_tasks (gateway_api (manager_of id down_api [gw ''a'' 5 False, gw ''b'' 1 True]))
       ''a'' ''hotkey'' 1 = Inl (Http3Exception ''connection refused'')
   \<and> outcome (get_tasks (manager_of id down_api [gw ''a'' 5 False, gw ''b'' 1 True])
         ''a'' ''hotkey'' 1) = Inr []
   \<and> gateways (final (get_tasks (manager_of id down_api [gw ''a'' 5 False, gw ''b'' 1 True])
         ''a'' ''hotkey'' 1)) = [gw ''a'' 5 True, gw ''b'' 1 False]"
  using get_tasks_absorbs_transport_error
    [of "manager_of id down_api [gw ''a'' 5 False, gw ''b'' 1 True]" "''a''" "''hotkey''" 1
        "''connection refused''"]
  by (simp add: manager_of_def init_def down_api_def gw_def reset_disabled_def)

text \<open>
  C10. When the task fetch raises an exception that is not an \<open>Http3Exception\<close>,
  \<^verbatim>\<open>get_tasks\<close> raises that exception. The transport call is the only
  collaborator call made: the scorer is not called and no gateway is disabled. The
  manager stays behind with every flag cleared by the first loop.
\<close>

theorem get_tasks_propagates_other_exception:
  assumes "api_get_tasks (gateway_api st) u hk n = Inl e" and "\<not> is_Http3 e"
  shows "get_tasks st u hk n =
           \<lparr>outcome = Inl e, final = st\<lparr>gateways := reset_disabled (gateways st)\<rparr>,
            calls = [ApiGetTasks u hk n]\<rparr>
       \<and> filter is_ScorerScore (calls (get_tasks st u hk n)) = []
       \<and> (\<forall>g \<in> set (gateways (final (get_tasks st u hk n))). \<not> disabled g)"
proof -
  have f: "fetch st u hk n =
     \<lparr>outcome = Inl e, final = st\<lparr>gateways := reset_disabled (gateways st)\<rparr>,
      calls = [ApiGetTasks u hk n]\<rparr>"
    using assms by (rule fetch_other)
  then have "outcome (fetch st u hk n) = Inl e" by simp
  from get_tasks_raised [OF this] show ?thesis
    by (auto simp: f dest: reset_disabled_clear)
qed

theorem get_tasks_propagates_other_exception_witness:
  "api_get_tasks (gateway_api (manager_of id broken_api [gw ''a'' 5 True, gw ''b'' 1 False]))
       ''a'' ''hotkey'' 1 = Inl (OtherException ''TimeoutError'')
   \<and> \<not> is_Http3 (OtherException ''TimeoutError'')
   \<and> outcome (get_tasks (manager_of id broken_api [gw ''a'' 5 True, gw ''b'' 1 False])
         ''a'' ''hotkey'' 1) = Inl (OtherException ''TimeoutError'')
   \<and> gateways (final (get_tasks (manager_of id broken_api [gw ''a'' 5 True, gw ''b'' 1 False])
         ''a'' ''hotkey'' 1)) = [gw ''a'' 5 False, gw ''b'' 1 False]
   \<and> calls (get_tasks (manager_of id broken_api [gw ''a'' 5 True, gw ''b'' 1 False])
         ''a'' ''hotkey'' 1) = [ApiGetTasks ''a'' ''hotkey'' 1]"
  using get_tasks_propagates_other_exception
    [of "manager_of id broken_api [gw ''a'' 5 True, gw ''b'' 1 False]" "''a''" "''hotkey''" 1
        "OtherException ''TimeoutError''"]
  by (simp add: manager_of_def init_def broken_api_def gw_def reset_disabled_def)

text \<open>
  C2. On every branch in which the task fetch returns or raises an
  \<open>Http3Exception\<close> (tasks, no tasks, transport error), \<^verbatim>\<open>get_tasks\<close> calls the
  scorer exactly once, after the transport call, on the list as it stands after the
  disabling loop; the value of that call is the manager's list when \<^verbatim>\<open>get_tasks\<close>
  returns, and so what a following \<^verbatim>\<open>get_best_gateway\<close> reads.
\<close>

theorem get_tasks_scores_once:
  assumes "\<forall>e. api_get_tasks (gateway_api st) u hk n = Inl e \<longrightarrow> is_Http3 e"
  shows "length (filter is_ScorerScore (calls (get_tasks st u hk n))) = 1
       \<and> calls (get_tasks st u hk n)
           = [ApiGetTasks u hk n,
              ScorerScore (if outcome (fetch st u hk n) = Inr []
                           then disable_first u (gateways (final (fetch st u hk n)))
                           else gateways (final (fetch st u hk n)))]
       \<and> final (get_tasks st u hk n)
           = st\<lparr>gateways := gateway_scorer st
                  (if outcome (fetch st u hk n) = Inr []
                   then disable_first u (gateways (final (fetch st u hk n)))
                   else gateways (final (fetch st u hk n)))\<rparr>
       \<and> outcome (get_best_gateway min_score randbelow (final (get_tasks st u hk n)))
           = outcome (get_best_gateway min_score randbelow
               (st\<lparr>gateways := gateway_scorer st
                  (if outcome (fetch st u hk n) = Inr []
                   then disable_first u (gateways (final (fetch st u hk n)))
                   else gateways (final (fetch st u hk n)))\<rparr>))"
proof -
  have "\<exists>ts. outcome (fetch st u hk n) = Inr ts"
    using assms by (auto simp: fetch_def Let_def split: sum.splits)
  then obtain ts where ts: "outcome (fetch st u hk n) = Inr ts" ..
  show ?thesis
  proof (cases "ts = []")
    case True
    with ts have e: "outcome (fetch st u hk n) = Inr []" by simp
    from get_tasks_empty [OF e] show ?thesis
      by (simp add: fetch_calls e)
  next
    case False
    from get_tasks_some [OF ts False] show ?thesis
      using False by (simp add: fetch_calls ts)
  qed
qed

theorem get_tasks_scores_once_witness:
  "api_get_tasks (gateway_api (manager_of fresh_scorer
            (static_api \<lparr>tasks = [task1], r_gateways = [gw ''a'' 5 True, gw ''c'' 2 False]\<rparr>)
            [gw ''a'' 5 False, gw ''b'' 1 False])) ''a'' ''hotkey'' 1
       = Inr \<lparr>tasks = [task1], r_gateways = [gw ''a'' 5 True, gw ''c'' 2 False]\<rparr>
   \<and> calls (get_tasks (manager_of fresh_scorer
            (static_api \<lparr>tasks = [task1], r_gateways = [gw ''a'' 5 True, gw ''c'' 2 False]\<rparr>)
            [gw ''a'' 5 False, gw ''b'' 1 False]) ''a'' ''hotkey'' 1)
       = [ApiGetTasks ''a'' ''hotkey'' 1, ScorerScore [gw ''a'' 5 True, gw ''c'' 2 False]]
   \<and> gateways (final (get_tasks (manager_of fresh_scorer
            (static_api \<lparr>tasks = [task1], r_gateways = [gw ''a'' 5 True, gw ''c'' 2 False]\<rparr>)
            [gw ''a'' 5 False, gw ''b'' 1 False]) ''a'' ''hotkey'' 1))
       = [gw ''a'' 5 False, gw ''c'' 2 False]"
  using get_tasks_scores_once
    [of "manager_of fresh_scorer
            (static_api \<lparr>tasks = [task1], r_gateways = [gw ''a'' 5 True, gw ''c'' 2 False]\<rparr>)
            [gw ''a'' 5 False, gw ''b'' 1 False]" "''a''" "''hotkey''" 1 0 "draw 0"]
  by (simp add: manager_of_def init_def static_api_def fetch_def fresh_scorer_def gw_def)



text \<open>
  C1. When \<^verbatim>\<open>get_tasks\<close> returns an empty task list (the fetch succeeded
  without tasks, or raised an \<open>Http3Exception\<close>), the manager's list becomes the
  scorer's value on the list left by the \<^verbatim>\<open>try\<close> statement after the disabling
  loop. That loop sets \<open>disabled = True\<close> on the first gateway with the target url
  and leaves every other position as it is; if no gateway has the target url it
  changes nothing and the scorer gets the list as it is. Every gateway with the
  target url in the final list has \<open>disabled = True\<close> whenever each such gateway
  of the scorer's value has the flag of the first gateway with the target url in the
  list the scorer was given (none, if the scorer dropped the url).
\<close>

theorem get_tasks_empty_disables_target:
  assumes "outcome (get_tasks st u hk n) = Inr []"
  shows "gateways (final (get_tasks st u hk n))
           = gateway_scorer st (disable_first u (gateways (final (fetch st u hk n))))
       \<and> (\<forall>i < length (gateways (final (fetch st u hk n))).
             url (gateways (final (fetch st u hk n)) ! i) = u
           \<and> (\<forall>j < i. url (gateways (final (fetch st u hk n)) ! j) \<noteq> u)
           \<longrightarrow> disable_first u (gateways (final (fetch st u hk n))) ! i
                 = (gateways (final (fetch st u hk n)) ! i)\<lparr>disabled := True\<rparr>
             \<and> (\<forall>k < length (gateways (final (fetch st u hk n))). k \<noteq> i \<longrightarrow>
                   disable_first u (gateways (final (fetch st u hk n))) ! k
                     = gateways (final (fetch st u hk n)) ! k))
       \<and> (u \<notin> url ` set (gateways (final (fetch st u hk n))) \<longrightarrow>
             disable_first u (gateways (final (fetch st u hk n)))
               = gateways (final (fetch st u hk n))
           \<and> gateways (final (get_tasks st u hk n))
               = gateway_scorer st (gateways (final (fetch st u hk n))))
       \<and> ((\<forall>g \<in> set (gateways (final (get_tasks st u hk n))). url g = u \<longrightarrow>
              (\<exists>g'. find (\<lambda>x. url x = u) (disable_first u (gateways (final (fetch st u hk n))))
                       = Some g'
                   \<and> disabled g = disabled g'))
           \<longrightarrow> (\<forall>g \<in> set (gateways (final (get_tasks st u hk n))). url g = u \<longrightarrow> disabled g))"
proof -
  let ?f = "gateways (final (fetch st u hk n))"
  have e: "outcome (fetch st u hk n) = Inr []"
    using assms by (auto simp: get_tasks_def Let_def split: sum.splits)
  have fin: "gateways (final (get_tasks st u hk n)) = gateway_scorer st (disable_first u ?f)"
    by (simp add: get_tasks_empty [OF e])
  have first: "\<forall>i < length ?f. url (?f ! i) = u \<and> (\<forall>j < i. url (?f ! j) \<noteq> u)
      \<longrightarrow> disable_first u ?f ! i = (?f ! i)\<lparr>disabled := True\<rparr>
        \<and> (\<forall>k < length ?f. k \<noteq> i \<longrightarrow> disable_first u ?f ! k = ?f ! k)"
    using disable_first_at [of _ ?f u] by blast
  have skip: "u \<notin> url ` set ?f \<longrightarrow> disable_first u ?f = ?f
      \<and> gateways (final (get_tasks st u hk n)) = gateway_scorer st ?f"
    using fin by (simp add: disable_first_absent)
  have flag: "disabled g'" if "find (\<lambda>x. url x = u) (disable_first u ?f) = Some g'" for g'
    using that unfolding find_disable_first by auto
  have target: "(\<forall>g \<in> set (gateways (final (get_tasks st u hk n))). url g = u \<longrightarrow>
        (\<exists>g'. find (\<lambda>x. url x = u) (disable_first u ?f) = Some g' \<and> disabled g = disabled g'))
      \<longrightarrow> (\<forall>g \<in> set (gateways (final (get_tasks st u hk n))). url g = u \<longrightarrow> disabled g)"
    using flag by blast
  show ?thesis
    by (intro conjI) (rule fin, rule first, rule skip, rule target)
qed

theorem get_tasks_empty_disables_target_witness:
  "outcome (get_tasks (manager_of adding_scorer
       (static_api \<lparr>tasks = [], r_gateways = [gw ''b'' 1 False, gw ''a'' 5 False]\<rparr>)
       [gw ''a'' 5 False]) ''a'' ''hotkey'' 1) = Inr []
   \<and> gateways (final (get_tasks (manager_of adding_scorer
       (static_api \<lparr>tasks = [], r_gateways = [gw ''b'' 1 False, gw ''a'' 5 False]\<rparr>)
       [gw ''a'' 5 False]) ''a'' ''hotkey'' 1))
       = [gw ''b'' 1 False, gw ''a'' 5 True, gw ''z'' 0 False]
   \<and> disabled (gateways (final (get_tasks (manager_of adding_scorer
       (static_api \<lparr>tasks = [], r_gateways = [gw ''b'' 1 False, gw ''a'' 5 False]\<rparr>)
       [gw ''a'' 5 False]) ''a'' ''hotkey'' 1)) ! 1)"
proof -
  let ?M = "manager_of adding_scorer
       (static_api \<lparr>tasks = [], r_gateways = [gw ''b'' 1 False, gw ''a'' 5 False]\<rparr>)
       [gw ''a'' 5 False]"
  have f: "gateways (final (fetch ?M ''a'' ''hotkey'' 1)) = [gw ''b'' 1 False, gw ''a'' 5 False]"
    by (simp add: manager_of_def init_def static_api_def fetch_def)
  have o: "outcome (get_tasks ?M ''a'' ''hotkey'' 1) = Inr []"
    by (simp add: manager_of_def init_def static_api_def fetch_def get_tasks_def
        update_gateways_def)
  have sc: "gateway_scorer ?M = adding_scorer"
    by (simp add: manager_of_def init_def)
  note t = get_tasks_empty_disables_target [OF o]
  have fin: "gateways (final (get_tasks ?M ''a'' ''hotkey'' 1))
      = [gw ''b'' 1 False, gw ''a'' 5 True, gw ''z'' 0 False]"
    using t [THEN conjunct1] unfolding f sc
    by (simp add: adding_scorer_def gw_def)
  have first: "find (\<lambda>x. url x = ''a'')
      (disable_first ''a'' (gateways (final (fetch ?M ''a'' ''hotkey'' 1))))
      = Some (gw ''a'' 5 True)"
    unfolding f by (simp add: gw_def)
  have carried: "\<forall>g \<in> set (gateways (final (get_tasks ?M ''a'' ''hotkey'' 1))). url g = ''a'' \<longrightarrow>
      (\<exists>g'. find (\<lambda>x. url x = ''a'')
               (disable_first ''a'' (gateways (final (fetch ?M ''a'' ''hotkey'' 1)))) = Some g'
           \<and> disabled g = disabled g')"
    unfolding first fin by (simp add: gw_def)
  from t [THEN conjunct2, THEN conjunct2, THEN conjunct2, THEN mp, OF carried]
  have "\<forall>g \<in> set (gateways (final (get_tasks ?M ''a'' ''hotkey'' 1))). url g = ''a'' \<longrightarrow> disabled g" .
  then have "disabled (gateways (final (get_tasks ?M ''a'' ''hotkey'' 1)) ! 1)"
    unfolding fin by (simp add: gw_def)
  with o fin show ?thesis by simp
qed

text \<open>
  A scorer that returns new gateway objects does not carry the flag over: after an
  empty fetch the target is in the final list with \<open>disabled = False\<close>.
\<close>

theorem get_tasks_empty_target_left_enabled:
  "outcome (get_tasks (manager_of fresh_scorer
       (static_api \<lparr>tasks = [], r_gateways = [gw ''a'' 5 False, gw ''b'' 1 False]\<rparr>)
       [gw ''a'' 5 False, gw ''b'' 1 False]) ''a'' ''hotkey'' 1) = Inr []
   \<and> gateways (final (get_tasks (manager_of fresh_scorer
       (static_api \<lparr>tasks = [], r_gateways = [gw ''a'' 5 False, gw ''b'' 1 False]\<rparr>)
       [gw ''a'' 5 False, gw ''b'' 1 False]) ''a'' ''hotkey'' 1))
       = [gw ''a'' 5 False, gw ''b'' 1 False]"
  by (simp add: manager_of_def init_def static_api_def fetch_def get_tasks_def
      update_gateways_def gw_def fresh_scorer_def)

text \<open>
  C4. The first loop of \<^verbatim>\<open>get_tasks\<close> clears every flag and changes nothing else,
  and it runs before anything that reads the list: the call gives the same run as on
  the manager with all flags cleared, and when the transport call raises, the list
  it leaves is the cleared one. So a flag set in an earlier cycle has no effect on
  this one. After a transport error every gateway whose url is not the target is
  enabled in the list handed to the scorer. After a fetch with tasks the list is the
  scorer's value on the gateways of the response, with the flags that response
  carries.
\<close>

theorem get_tasks_clears_flags_first:
  "(\<forall>g \<in> set (reset_disabled (gateways st)). \<not> disabled g)
   \<and> map url (reset_disabled (gateways st)) = map url (gateways st)
   \<and> map score (reset_disabled (gateways st)) = map score (gateways st)
   \<and> get_tasks st u hk n = get_tasks (st\<lparr>gateways := reset_disabled (gateways st)\<rparr>) u hk n
   \<and> (\<forall>e. api_get_tasks (gateway_api st) u hk n = Inl e \<longrightarrow>
         gateways (final (fetch st u hk n)) = reset_disabled (gateways st))
   \<and> (\<forall>msg. api_get_tasks (gateway_api st) u hk n = Inl (Http3Exception msg) \<longrightarrow>
         final (get_tasks st u hk n)
           = st\<lparr>gateways := gateway_scorer st (disable_first u (reset_disabled (gateways st)))\<rparr>
       \<and> (\<forall>i < length (gateways st). url (gateways st ! i) \<noteq> u \<longrightarrow>
             \<not> disabled (disable_first u (reset_disabled (gateways st)) ! i)))
   \<and> (\<forall>res. api_get_tasks (gateway_api st) u hk n = Inr res \<and> tasks res \<noteq> [] \<longrightarrow>
         final (get_tasks st u hk n) = st\<lparr>gateways := gateway_scorer st (r_gateways res)\<rparr>)"
proof (intro conjI allI impI ballI)
  fix g assume "g \<in> set (reset_disabled (gateways st))"
  then show "\<not> disabled g" by (rule reset_disabled_clear)
next
  show "map url (reset_disabled (gateways st)) = map url (gateways st)"
    by (rule reset_disabled_url)
next
  show "map score (reset_disabled (gateways st)) = map score (gateways st)"
    by (rule reset_disabled_score)
next
  show "get_tasks st u hk n = get_tasks (st\<lparr>gateways := reset_disabled (gateways st)\<rparr>) u hk n"
    unfolding get_tasks_def fetch_reset ..
next
  fix e assume "api_get_tasks (gateway_api st) u hk n = Inl e"
  then show "gateways (final (fetch st u hk n)) = reset_disabled (gateways st)"
    by (simp add: fetch_def Let_def)
next
  fix msg assume a: "api_get_tasks (gateway_api st) u hk n = Inl (Http3Exception msg)"
  have f: "fetch st u hk n =
     \<lparr>outcome = Inr [], final = st\<lparr>gateways := reset_disabled (gateways st)\<rparr>,
      calls = [ApiGetTasks u hk n]\<rparr>"
    by (rule fetch_http3 [OF a]) simp
  then have "outcome (fetch st u hk n) = Inr []" by simp
  from get_tasks_empty [OF this]
  show "final (get_tasks st u hk n)
           = st\<lparr>gateways := gateway_scorer st (disable_first u (reset_disabled (gateways st)))\<rparr>"
    by (simp add: f)
next
  fix msg i
  assume i: "i < length (gateways st)" and other: "url (gateways st ! i) \<noteq> u"
  have "disable_first u (reset_disabled (gateways st)) ! i = reset_disabled (gateways st) ! i"
    using i other by (intro disable_first_others) (simp_all add: reset_disabled_def)
  then show "\<not> disabled (disable_first u (reset_disabled (gateways st)) ! i)"
    using i by (simp add: reset_disabled_def)
next
  fix res assume a: "api_get_tasks (gateway_api st) u hk n = Inr res \<and> tasks res \<noteq> []"
  then have o: "outcome (fetch st u hk n) = Inr (tasks res)"
    by (simp add: fetch_ok)
  from get_tasks_some [OF o] a
  show "final (get_tasks st u hk n) = st\<lparr>gateways := gateway_scorer st (r_gateways res)\<rparr>"
    by (simp add: fetch_ok)
qed

theorem get_tasks_clears_flags_first_witness:
  "api_get_tasks (gateway_api (manager_of id down_api [gw ''a'' 5 True, gw ''b'' 1 False]))
       ''b'' ''hotkey'' 1 = Inl (Http3Exception ''connection refused'')
   \<and> gateways (final (get_tasks (manager_of id down_api [gw ''a'' 5 True, gw ''b'' 1 False])
       ''b'' ''hotkey'' 1)) = [gw ''a'' 5 False, gw ''b'' 1 True]
   \<and> api_get_tasks (gateway_api (manager_of id
         (static_api \<lparr>tasks = [task1], r_gateways = [gw ''a'' 6 False, gw ''b'' 1 False]\<rparr>)
         [gw ''a'' 5 True, gw ''b'' 1 False])) ''a'' ''hotkey'' 1
       = Inr \<lparr>tasks = [task1], r_gateways = [gw ''a'' 6 False, gw ''b'' 1 False]\<rparr>
   \<and> gateways (final (get_tasks (manager_of id
         (static_api \<lparr>tasks = [task1], r_gateways = [gw ''a'' 6 False, gw ''b'' 1 False]\<rparr>)
         [gw ''a'' 5 True, gw ''b'' 1 False]) ''a'' ''hotkey'' 1))
       = [gw ''a'' 6 False, gw ''b'' 1 False]"
  using get_tasks_clears_flags_first
    [of "manager_of id down_api [gw ''a'' 5 True, gw ''b'' 1 False]" "''b''" "''hotkey''" 1]
    get_tasks_clears_flags_first
    [of "manager_of id
         (static_api \<lparr>tasks = [task1], r_gateways = [gw ''a'' 6 False, gw ''b'' 1 False]\<rparr>)
         [gw ''a'' 5 True, gw ''b'' 1 False]" "''a''" "''hotkey''" 1]
  by (simp add: manager_of_def init_def static_api_def down_api_def gw_def reset_disabled_def
      task1_def get_tasks_def fetch_def update_gateways_def)

text \<open>
  A gateway that was disabled before the call is still disabled after a fetch that
  returned a task, when the response lists it with \<open>disabled = True\<close>: the list of
  the response replaces the one whose flags were cleared.
\<close>

theorem get_tasks_with_tasks_keeps_response_flag:
  "outcome (get_tasks (manager_of id
       (static_api \<lparr>tasks = [task1], r_gateways = [gw ''a'' 5 True, gw ''b'' 1 False]\<rparr>)
       [gw ''a'' 5 True, gw ''b'' 1 False]) ''a'' ''hotkey'' 1) = Inr [task1]
   \<and> gateways (final (get_tasks (manager_of id
       (static_api \<lparr>tasks = [task1], r_gateways = [gw ''a'' 5 True, gw ''b'' 1 False]\<rparr>)
       [gw ''a'' 5 True, gw ''b'' 1 False]) ''a'' ''hotkey'' 1))
       = [gw ''a'' 5 True, gw ''b'' 1 False]"
  by (simp add: manager_of_def init_def static_api_def fetch_def get_tasks_def
      update_gateways_def gw_def task1_def)

subsection \<open>Submitting a result\<close>

text \<open>
  C8. \<^verbatim>\<open>add_result\<close> builds the task reference from the id, the prompt and the
  gateway url of the caller's task and calls the transport client's
  \<^verbatim>\<open>add_result\<close> once with it and the other arguments as given. What that call
  returns or raises is what \<^verbatim>\<open>add_result\<close> returns or raises, and the manager is
  unchanged.
\<close>

theorem add_result_forwards:
  "add_result st validator_hotkey task kwargs =
     \<lparr>outcome = api_add_result (gateway_api st) validator_hotkey
                  \<lparr>gt_id = ot_id task, gt_prompt = ot_prompt task,
                   gt_gateway_host = ot_gateway_url task\<rparr> kwargs,
      final = st,
      calls = [ApiAddResult validator_hotkey
                 \<lparr>gt_id = ot_id task, gt_prompt = ot_prompt task,
                  gt_gateway_host = ot_gateway_url task\<rparr> kwargs]\<rparr>
   \<and> length (filter is_ApiAddResult (calls (add_result st validator_hotkey task kwargs))) = 1"
  by (simp add: add_result_def Let_def)

theorem add_result_forwards_example:
  "outcome (add_result (manager_of id down_api [gw ''a'' 5 False]) ''hotkey''
       \<lparr>ot_id = ''t1'', ot_prompt = ''a red chair'', ot_gateway_url = ''a''\<rparr>
       \<lparr>rf_score = Some 1, rf_miner_hotkey = Some ''miner'', rf_miner_uid = Some 7,
        rf_miner_rating = None, rf_asset = None, rf_error = None\<rparr>)
     = Inl (Http3Exception ''connection refused'')
   \<and> calls (add_result (manager_of id down_api [gw ''a'' 5 False]) ''hotkey''
       \<lparr>ot_id = ''t1'', ot_prompt = ''a red chair'', ot_gateway_url = ''a''\<rparr>
       \<lparr>rf_score = Some 1, rf_miner_hotkey = Some ''miner'', rf_miner_uid = Some 7,
        rf_miner_rating = None, rf_asset = None, rf_error = None\<rparr>)
     = [ApiAddResult ''hotkey'' task1
         \<lparr>rf_score = Some 1, rf_miner_hotkey = Some ''miner'', rf_miner_uid = Some 7,
          rf_miner_rating = None, rf_asset = None, rf_error = None\<rparr>]"
  using add_result_forwards [of "manager_of id down_api [gw ''a'' 5 False]" "''hotkey''"
       "\<lparr>ot_id = ''t1'', ot_prompt = ''a red chair'', ot_gateway_url = ''a''\<rparr>"
       "\<lparr>rf_score = Some 1, rf_miner_hotkey = Some ''miner'', rf_miner_uid = Some 7,
        rf_miner_rating = None, rf_asset = None, rf_error = None\<rparr>"]
  by (simp add: manager_of_def init_def down_api_def task1_def)

end
